theory Spec2Isabelle
  imports Main "HOL-Library.Word"
begin

unbundle bit_operations_syntax

section \<open>Strings of the ECMAScript runtime\<close>

text \<open>
  A JavaScript string is a sequence of UTF-16 code units. The component applies
  \<^verbatim>\<open>String.prototype.trim\<close>, a regular expression with the class \<^verbatim>\<open>\S\<close> and
  \<^verbatim>\<open>JSON.stringify\<close> to such strings, all of which work on code units, so the model
  keeps them as 16-bit words. String literals of the source are ASCII and are written
  through \<open>js\<close>.
\<close>

type_synonym jschar = "16 word"
type_synonym jsstring = "jschar list"

definition js :: "string \<Rightarrow> jsstring" where
  "js s = map (\<lambda>c. word_of_nat (of_char c)) s"

text \<open>
  ECMAScript \<^verbatim>\<open>WhiteSpace\<close> and \<^verbatim>\<open>LineTerminator\<close>: TAB, LF, VT, FF, CR, SP, NBSP,
  U+1680, U+2000 to U+200A, LS, PS, U+202F, U+205F, U+3000 and the byte order mark. Both
  \<^verbatim>\<open>trim\<close> and the classes \<^verbatim>\<open>\s\<close> and \<^verbatim>\<open>\S\<close> are defined on this set.
\<close>

definition isWhiteSpace :: "jschar \<Rightarrow> bool" where
  "isWhiteSpace c =
     (c = 0x0009 \<or> c = 0x000A \<or> c = 0x000B \<or> c = 0x000C \<or> c = 0x000D \<or> c = 0x0020 \<or>
      c = 0x00A0 \<or> c = 0x1680 \<or> (0x2000 \<le> c \<and> c \<le> 0x200A) \<or> c = 0x2028 \<or>
      c = 0x2029 \<or> c = 0x202F \<or> c = 0x205F \<or> c = 0x3000 \<or> c = 0xFEFF)"

definition trim :: "jsstring \<Rightarrow> jsstring" where
  "trim s = rev (dropWhile isWhiteSpace (rev (dropWhile isWhiteSpace s)))"

text \<open>Truthiness of a value of type \<^verbatim>\<open>string\<close>: only the empty string is falsy.\<close>

definition truthy :: "jsstring \<Rightarrow> bool" where
  "truthy s = (s \<noteq> [])"

text \<open>Truthiness of a value of type \<^verbatim>\<open>string | null\<close>: \<^verbatim>\<open>null\<close> is falsy too.\<close>

fun truthyOrNull :: "jsstring option \<Rightarrow> bool" where
  "truthyOrNull None = False"
| "truthyOrNull (Some s) = truthy s"

section \<open>Regular expressions\<close>

text \<open>
  The fragment of the pattern language that the source uses: a literal code unit, the
  class \<^verbatim>\<open>\S\<close>, concatenation and the quantifier \<^verbatim>\<open>+\<close>. \<open>Zero\<close> and \<open>One\<close> (no string,
  the empty string), \<open>Alt\<close> and \<open>Star\<close> are needed to take derivatives.
\<close>

datatype rx =
    Zero
  | One
  | Lit jschar
  | NonSpace
  | Alt rx rx
  | Cat rx rx
  | Star rx

definition Plus :: "rx \<Rightarrow> rx" where
  "Plus r = Cat r (Star r)"

fun nullable :: "rx \<Rightarrow> bool" where
  "nullable Zero = False"
| "nullable One = True"
| "nullable (Lit c) = False"
| "nullable NonSpace = False"
| "nullable (Alt r s) = (nullable r \<or> nullable s)"
| "nullable (Cat r s) = (nullable r \<and> nullable s)"
| "nullable (Star r) = True"

fun deriv :: "jschar \<Rightarrow> rx \<Rightarrow> rx" where
  "deriv x Zero = Zero"
| "deriv x One = Zero"
| "deriv x (Lit c) = (if x = c then One else Zero)"
| "deriv x NonSpace = (if isWhiteSpace x then Zero else One)"
| "deriv x (Alt r s) = Alt (deriv x r) (deriv x s)"
| "deriv x (Cat r s) =
     (if nullable r then Alt (Cat (deriv x r) s) (deriv x s) else Cat (deriv x r) s)"
| "deriv x (Star r) = Cat (deriv x r) (Star r)"

text \<open>\<open>matches r s\<close>: the pattern \<open>r\<close> matches the whole of \<open>s\<close>.\<close>

fun matches :: "rx \<Rightarrow> jsstring \<Rightarrow> bool" where
  "matches r [] = nullable r"
| "matches r (x # xs) = matches (deriv x r) xs"

text \<open>\<open>matchesPrefix r s\<close>: the pattern matches, starting at index 0, some prefix of \<open>s\<close>.\<close>

fun matchesPrefix :: "rx \<Rightarrow> jsstring \<Rightarrow> bool" where
  "matchesPrefix r [] = nullable r"
| "matchesPrefix r (x # xs) = (nullable r \<or> matchesPrefix (deriv x r) xs)"

text \<open>
  \<^verbatim>\<open>RegExp.prototype.test\<close> of a pattern without flags: the search tries every start
  index from 0 to the length of the string and succeeds when the pattern matches at one
  of them.
\<close>

fun test :: "rx \<Rightarrow> jsstring \<Rightarrow> bool" where
  "test r [] = matchesPrefix r []"
| "test r (x # xs) = (matchesPrefix r (x # xs) \<or> test r xs)"

text \<open>The literal \<^verbatim>\<open>/\S+@\S+\.\S+/\<close>.\<close>

definition emailPattern :: rx where
  "emailPattern =
     Cat (Plus NonSpace) (Cat (Lit 0x40) (Cat (Plus NonSpace) (Cat (Lit 0x2E) (Plus NonSpace))))"

text \<open>
  The strings a pattern denotes, to state what the matcher above decides: \<open>star A\<close> is
  the set of concatenations of finitely many strings of \<open>A\<close>.
\<close>

inductive_set star :: "jsstring set \<Rightarrow> jsstring set" for A :: "jsstring set" where
  star_empty: "[] \<in> star A"
| star_more: "u \<in> A \<Longrightarrow> v \<in> star A \<Longrightarrow> u @ v \<in> star A"

fun lang :: "rx \<Rightarrow> jsstring set" where
  "lang Zero = {}"
| "lang One = {[]}"
| "lang (Lit c) = {[c]}"
| "lang NonSpace = {[c] | c. \<not> isWhiteSpace c}"
| "lang (Alt r s) = lang r \<union> lang s"
| "lang (Cat r s) = {u @ v | u v. u \<in> lang r \<and> v \<in> lang s}"
| "lang (Star r) = star (lang r)"

section \<open>Data model\<close>

record FormData =
  name :: jsstring
  email :: jsstring
  message :: jsstring

record FormState =
  isSubmitting :: bool
  isSuccess :: bool
  error :: "jsstring option"


text \<open>The three controls carry the \<^verbatim>\<open>name\<close> attributes "name", "email" and "message".\<close>

datatype field = Name | Email | Message

record Toast =
  title :: jsstring
  description :: jsstring
  variant :: "jsstring option"

text \<open>
  The request handed to \<^verbatim>\<open>fetch\<close>, the response it resolves with, and the ways the
  awaited call settles. \<^verbatim>\<open>Response.ok\<close> is true exactly for a status from 200 to 299;
  \<open>jsonParses\<close> tells whether the promise of \<^verbatim>\<open>response.json()\<close> is fulfilled.
\<close>

record Request =
  url :: jsstring
  httpMethod :: jsstring
  headers :: "(jsstring \<times> jsstring) list"
  body :: jsstring

record Response =
  status :: nat
  jsonParses :: bool

definition ok :: "Response \<Rightarrow> bool" where
  "ok r = (200 \<le> status r \<and> status r \<le> 299)"

datatype fetchOutcome = Rejects | Resolves Response

text \<open>What the \<^verbatim>\<open>try\<close> block of \<^verbatim>\<open>handleSubmit\<close> can throw.\<close>

datatype exn =
    HttpError nat  \<comment> \<open>\<^verbatim>\<open>new Error(`HTTP error! status: ${response.status}`)\<close>\<close>
  | FetchRejected  \<comment> \<open>the rejection of \<^verbatim>\<open>fetch\<close>\<close>
  | JsonRejected   \<comment> \<open>the rejection of \<^verbatim>\<open>response.json()\<close>\<close>

text \<open>
  The state of one mounted form: the two \<^verbatim>\<open>useState\<close> cells and the effects on the
  collaborators (toasts shown, lines written by \<^verbatim>\<open>console.error\<close>, requests issued,
  and the number of requests that have not settled yet).
\<close>

record Component =
  formData :: FormData
  formState :: FormState
  toasts :: "Toast list"
  console :: "exn list"
  requests :: "Request list"
  inFlight :: nat

definition initial :: Component where
  "initial =
     \<lparr>formData = \<lparr>name = [], email = [], message = []\<rparr>,
      formState = \<lparr>isSubmitting = False, isSuccess = False, error = None\<rparr>,
      toasts = [], console = [], requests = [], inFlight = 0\<rparr>"

section \<open>\<^verbatim>\<open>JSON.stringify\<close> on an object of three strings\<close>

definition isLeadingSurrogate :: "jschar \<Rightarrow> bool" where
  "isLeadingSurrogate c = (0xD800 \<le> c \<and> c \<le> 0xDBFF)"

definition isTrailingSurrogate :: "jschar \<Rightarrow> bool" where
  "isTrailingSurrogate c = (0xDC00 \<le> c \<and> c \<le> 0xDFFF)"

definition hexDigit :: "jschar \<Rightarrow> jschar" where
  "hexDigit d = (if d < 10 then 0x30 + d else 0x57 + d)"

text \<open>\<^verbatim>\<open>UnicodeEscape\<close>: a backslash, \<^verbatim>\<open>u\<close> and four lower-case hexadecimal digits.\<close>

definition UnicodeEscape :: "jschar \<Rightarrow> jsstring" where
  "UnicodeEscape c =
     [0x5C, 0x75, hexDigit (drop_bit 12 c), hexDigit (drop_bit 8 c AND 0xF),
      hexDigit (drop_bit 4 c AND 0xF), hexDigit (c AND 0xF)]"

definition quoteUnit :: "jschar \<Rightarrow> jsstring" where
  "quoteUnit c =
     (if c = 0x08 then [0x5C, 0x62]
      else if c = 0x09 then [0x5C, 0x74]
      else if c = 0x0A then [0x5C, 0x6E]
      else if c = 0x0C then [0x5C, 0x66]
      else if c = 0x0D then [0x5C, 0x72]
      else if c = 0x22 then [0x5C, 0x22]
      else if c = 0x5C then [0x5C, 0x5C]
      else if c < 0x20 \<or> isLeadingSurrogate c \<or> isTrailingSurrogate c then UnicodeEscape c
      else [c])"

text \<open>
  The string is read by code points: a leading surrogate followed by a trailing one is a
  single code point and is copied, any other surrogate stands alone and is escaped.
\<close>

fun quoteUnits :: "jsstring \<Rightarrow> jsstring" where
  "quoteUnits [] = []"
| "quoteUnits [c] = quoteUnit c"
| "quoteUnits (c # d # cs) =
     (if isLeadingSurrogate c \<and> isTrailingSurrogate d then c # d # quoteUnits cs
      else quoteUnit c @ quoteUnits (d # cs))"

definition QuoteJSONString :: "jsstring \<Rightarrow> jsstring" where
  "QuoteJSONString s = [0x22] @ quoteUnits s @ [0x22]"

text \<open>
  The object always has its keys in the order name, email, message: the initial object
  and the reset object are written so, and a spread followed by an assignment to an
  existing key keeps the position of the key.
\<close>

definition JSON_stringify :: "FormData \<Rightarrow> jsstring" where
  "JSON_stringify d =
     [0x7B] @ QuoteJSONString (js ''name'') @ [0x3A] @ QuoteJSONString (name d) @ [0x2C] @
     QuoteJSONString (js ''email'') @ [0x3A] @ QuoteJSONString (email d) @ [0x2C] @
     QuoteJSONString (js ''message'') @ [0x3A] @ QuoteJSONString (message d) @ [0x7D]"

section \<open>The handlers of \<^verbatim>\<open>ContactForm\<close>\<close>

text \<open>
  \<^verbatim>\<open>setFormState\<close> and \<^verbatim>\<open>setFormData\<close> with an updater function; the call with a
  plain object is the constant updater. A handler runs against the state of the latest
  render, which is the current state: React renders again before it dispatches the next
  event, and the continuation of \<^verbatim>\<open>handleSubmit\<close> reads no state.
\<close>

definition setFormState :: "(FormState \<Rightarrow> FormState) \<Rightarrow> Component \<Rightarrow> Component" where
  "setFormState f c = c\<lparr>formState := f (formState c)\<rparr>"

definition setFormData :: "(FormData \<Rightarrow> FormData) \<Rightarrow> Component \<Rightarrow> Component" where
  "setFormData f c = c\<lparr>formData := f (formData c)\<rparr>"

text \<open>\<^verbatim>\<open>{...prev, [name]: value}\<close>\<close>

fun assignField :: "field \<Rightarrow> jsstring \<Rightarrow> FormData \<Rightarrow> FormData" where
  "assignField Name v prev = prev\<lparr>name := v\<rparr>"
| "assignField Email v prev = prev\<lparr>email := v\<rparr>"
| "assignField Message v prev = prev\<lparr>message := v\<rparr>"

definition handleInputChange :: "field \<Rightarrow> jsstring \<Rightarrow> Component \<Rightarrow> Component" where
  "handleInputChange f v c =
     (let c1 = setFormData (assignField f v) c
      in if truthyOrNull (error (formState c))
         then setFormState (\<lambda>prev. prev\<lparr>error := None\<rparr>) c1
         else c1)"

definition validateForm :: "Component \<Rightarrow> bool \<times> Component" where
  "validateForm c =
     (if \<not> truthy (trim (name (formData c)))
      then (False, setFormState (\<lambda>prev. prev\<lparr>error := Some (js ''Name is required'')\<rparr>) c)
      else if \<not> truthy (trim (email (formData c)))
      then (False, setFormState (\<lambda>prev. prev\<lparr>error := Some (js ''Email is required'')\<rparr>) c)
      else if \<not> test emailPattern (email (formData c))
      then (False,
            setFormState (\<lambda>prev. prev\<lparr>error := Some (js ''Please enter a valid email address'')\<rparr>) c)
      else if \<not> truthy (trim (message (formData c)))
      then (False, setFormState (\<lambda>prev. prev\<lparr>error := Some (js ''Message is required'')\<rparr>) c)
      else (True, c))"

definition submitRequest :: "FormData \<Rightarrow> Request" where
  "submitRequest d =
     \<lparr>url = js ''/.netlify/functions/submit'',
      httpMethod = js ''POST'',
      headers = [(js ''Content-Type'', js ''application/json'')],
      body = JSON_stringify d\<rparr>"

definition fetch :: "Request \<Rightarrow> Component \<Rightarrow> Component" where
  "fetch r c = c\<lparr>requests := requests c @ [r], inFlight := Suc (inFlight c)\<rparr>"

definition toast :: "Toast \<Rightarrow> Component \<Rightarrow> Component" where
  "toast t c = c\<lparr>toasts := toasts c @ [t]\<rparr>"

definition console_error :: "exn \<Rightarrow> Component \<Rightarrow> Component" where
  "console_error e c = c\<lparr>console := console c @ [e]\<rparr>"

definition successToast :: Toast where
  "successToast =
     \<lparr>title = js ''Message sent successfully!'',
      description =
        js ''Thank you for your message. We'' @ [0x27] @ js ''ll get back to you soon.'',
      variant = None\<rparr>"

definition errorToast :: Toast where
  "errorToast =
     \<lparr>title = js ''Error sending message'',
      description = js ''Please try again later or contact us directly.'',
      variant = Some (js ''destructive'')\<rparr>"

text \<open>
  \<^verbatim>\<open>handleSubmit\<close> is asynchronous. It either returns before the request (\<open>Done\<close>),
  or reaches \<^verbatim>\<open>await fetch(...)\<close> and is suspended there (\<open>Awaiting\<close>).
\<close>

datatype suspension = Done Component | Awaiting Component

definition handleSubmit :: "Component \<Rightarrow> suspension" where
  "handleSubmit c =
     (case validateForm c of
        (False, c1) \<Rightarrow> Done c1
      | (True, c1) \<Rightarrow>
          Awaiting
            (fetch (submitRequest (formData c))
               (setFormState (\<lambda>_. \<lparr>isSubmitting = True, isSuccess = False, error = None\<rparr>) c1)))"

text \<open>
  The rest of the \<^verbatim>\<open>try\<close> block once \<^verbatim>\<open>fetch\<close> has settled, up to the end of
  \<^verbatim>\<open>await response.json()\<close>: the value thrown, if any.
\<close>

fun awaited :: "fetchOutcome \<Rightarrow> exn + unit" where
  "awaited Rejects = Inl FetchRejected"
| "awaited (Resolves response) =
     (if \<not> ok response then Inl (HttpError (status response))
      else if jsonParses response then Inr ()
      else Inl JsonRejected)"

definition handleSubmit_resume :: "fetchOutcome \<Rightarrow> Component \<Rightarrow> Component" where
  "handleSubmit_resume out c =
     (let c0 = c\<lparr>inFlight := inFlight c - 1\<rparr>
      in case awaited out of
           Inr result \<Rightarrow>
             setFormData (\<lambda>_. \<lparr>name = [], email = [], message = []\<rparr>)
               (toast successToast
                  (setFormState (\<lambda>_. \<lparr>isSubmitting = False, isSuccess = True, error = None\<rparr>) c0))
         | Inl err \<Rightarrow>
             toast errorToast
               (setFormState
                  (\<lambda>_. \<lparr>isSubmitting = False, isSuccess = False,
                        error = Some (js ''Failed to send message. Please try again later.'')\<rparr>)
                  (console_error err c0)))"

text \<open>A submission run to its end, the request settling with \<open>out\<close>.\<close>

definition submit :: "fetchOutcome \<Rightarrow> Component \<Rightarrow> Component" where
  "submit out c =
     (case handleSubmit c of Done c1 \<Rightarrow> c1 | Awaiting c1 \<Rightarrow> handleSubmit_resume out c1)"

section \<open>Rendering and events\<close>

text \<open>
  What the render function returns, as far as behaviour goes: the confirmation card
  with its button, or the card with the optional alert, the three inputs and the submit
  button.
\<close>

record Input =
  nameAttr :: field
  valueAttr :: jsstring
  disabled :: bool

record Button =
  buttonDisabled :: bool
  buttonLabel :: jsstring

datatype view =
    ConfirmationView
  | FormView (alert: "jsstring option") (inputs: "Input list") (submitButton: Button)

definition render :: "Component \<Rightarrow> view" where
  "render c =
     (if isSuccess (formState c) then ConfirmationView
      else FormView
        (if truthyOrNull (error (formState c)) then error (formState c) else None)
        [\<lparr>nameAttr = Name, valueAttr = name (formData c),
           disabled = isSubmitting (formState c)\<rparr>,
         \<lparr>nameAttr = Email, valueAttr = email (formData c),
           disabled = isSubmitting (formState c)\<rparr>,
         \<lparr>nameAttr = Message, valueAttr = message (formData c),
           disabled = isSubmitting (formState c)\<rparr>]
        \<lparr>buttonDisabled = isSubmitting (formState c),
         buttonLabel =
           (if isSubmitting (formState c) then js ''Sending Message...''
            else js ''Send Message'')\<rparr>)"

text \<open>
  The events the component reacts to: a change of one input, the submission of the
  form, a click on "Send Another Message", and the settling of a request in flight.
\<close>

datatype event =
    Change field jsstring
  | Submit
  | SendAnother
  | Settled fetchOutcome

text \<open>
  The browser dispatches an event only to a control that is on the page and not
  disabled: a disabled input cannot be edited, and a form whose submit button is
  disabled is submitted neither by a click nor by the Enter key. A request settles only
  while it is in flight. The \<^verbatim>\<open>required\<close> and \<^verbatim>\<open>type="email"\<close> attributes, by which
  a browser may refuse to submit at all, are left out: the model allows every submission
  the handler can be called for.
\<close>

fun enabled :: "event \<Rightarrow> Component \<Rightarrow> bool" where
  "enabled (Change f v) c =
     (case render c of
        ConfirmationView \<Rightarrow> False
      | FormView a ins b \<Rightarrow> list_ex (\<lambda>i. nameAttr i = f \<and> \<not> disabled i) ins)"
| "enabled Submit c =
     (case render c of
        ConfirmationView \<Rightarrow> False
      | FormView a ins b \<Rightarrow> \<not> buttonDisabled b)"
| "enabled SendAnother c =
     (case render c of ConfirmationView \<Rightarrow> True | FormView a ins b \<Rightarrow> False)"
| "enabled (Settled out) c = (0 < inFlight c)"

fun fire :: "event \<Rightarrow> Component \<Rightarrow> Component" where
  "fire (Change f v) c = handleInputChange f v c"
| "fire Submit c = (case handleSubmit c of Done c1 \<Rightarrow> c1 | Awaiting c1 \<Rightarrow> c1)"
| "fire SendAnother c =
     setFormState (\<lambda>_. \<lparr>isSubmitting = False, isSuccess = False, error = None\<rparr>) c"
| "fire (Settled out) c = handleSubmit_resume out c"

inductive reachable :: "Component \<Rightarrow> bool" where
  mounted: "reachable initial"
| dispatched: "reachable c \<Longrightarrow> enabled e c \<Longrightarrow> reachable (fire e c)"

text \<open>The same, as a run of a list of events from a state; \<open>None\<close> when one of them cannot occur.\<close>

fun run :: "event list \<Rightarrow> Component \<Rightarrow> Component option" where
  "run [] c = Some c"
| "run (e # es) c = (if enabled e c then run es (fire e c) else None)"

section \<open>Validation as an ordered list of checks\<close>

text \<open>
  The specification describes validation as four checks tried in a fixed order, each
  with its message, the first failing one deciding the message. \<open>checks\<close> and
  \<open>firstFailure\<close> follow that wording; they are compared with \<open>validateForm\<close> below.
\<close>

definition checks :: "((FormData \<Rightarrow> bool) \<times> jsstring) list" where
  "checks =
     [(\<lambda>d. trim (name d) \<noteq> [], js ''Name is required''),
      (\<lambda>d. trim (email d) \<noteq> [], js ''Email is required''),
      (\<lambda>d. test emailPattern (email d), js ''Please enter a valid email address''),
      (\<lambda>d. trim (message d) \<noteq> [], js ''Message is required'')]"

definition firstFailure :: "FormData \<Rightarrow> jsstring option" where
  "firstFailure d = map_option snd (find (\<lambda>(passes, msg). \<not> passes d) checks)"

section \<open>The messages and the invariant of the reachable states\<close>

definition validationMessages :: "jsstring list" where
  "validationMessages =
     [js ''Name is required'', js ''Email is required'',
      js ''Please enter a valid email address'', js ''Message is required'']"

definition failureMessage :: jsstring where
  "failureMessage = js ''Failed to send message. Please try again later.''"

text \<open>
  While a submission is in flight the form is neither in the success state nor showing
  an error; the number of requests in flight is one then and zero otherwise; the error
  is one of the five messages of the source.
\<close>

definition invariant :: "Component \<Rightarrow> bool" where
  "invariant c =
     ((isSubmitting (formState c) \<longrightarrow> \<not> isSuccess (formState c) \<and> error (formState c) = None) \<and>
      inFlight c = (if isSubmitting (formState c) then 1 else 0) \<and>
      (error (formState c) = None \<or>
       error (formState c) \<in> Some ` set (failureMessage # validationMessages)))"

section \<open>Sample states\<close>

definition filled :: "jsstring \<Rightarrow> jsstring \<Rightarrow> jsstring \<Rightarrow> Component" where
  "filled n e m = initial\<lparr>formData := \<lparr>name = n, email = e, message = m\<rparr>\<rparr>"

definition validForm :: Component where
  "validForm = filled (js '' Ann '') (js ''a@b.io'') (js ''Hello'')"

definition allWrong :: Component where
  "allWrong = filled (js ''  '') (js ''nobody'') []"

definition blankName :: Component where
  "blankName = filled [0x20, 0x09, 0xA0] (js ''a@b.io'') (js ''Hello'')"

definition emptyEmail :: Component where
  "emptyEmail = filled (js ''Ann'') [] (js ''Hello'')"

definition badEmail :: Component where
  "badEmail = filled (js ''Ann'') (js ''ann.example'') (js ''Hello'')"

text \<open>The visitor fills the three fields, then submits; or submits the empty form.\<close>

definition typed :: Component where
  "typed =
     fire (Change Message (js ''Hello''))
       (fire (Change Email (js ''a@b.io'')) (fire (Change Name (js '' Ann '')) initial))"

definition sending :: Component where
  "sending = fire Submit typed"

definition rejected :: Component where
  "rejected = fire Submit initial"

definition okResponse :: Response where
  "okResponse = \<lparr>status = 200, jsonParses = True\<rparr>"

definition serverError :: Response where
  "serverError = \<lparr>status = 500, jsonParses = True\<rparr>"

definition garbled :: Response where
  "garbled = \<lparr>status = 200, jsonParses = False\<rparr>"

section \<open>Evaluation of the samples\<close>

lemmas eval_simps =
  filled_def initial_def validateForm_def truthy_def trim_def js_def isWhiteSpace_def
  emailPattern_def Plus_def setFormState_def

lemma validateForm_validForm: "validateForm validForm = (True, validForm)"
  by (simp add: validForm_def eval_simps)

lemma validateForm_allWrong:
  "validateForm allWrong =
     (False, allWrong\<lparr>formState := (formState allWrong)\<lparr>error := Some (js ''Name is required'')\<rparr>\<rparr>)"
  by (simp add: allWrong_def eval_simps)

lemma validateForm_blankName:
  "validateForm blankName =
     (False, blankName\<lparr>formState := (formState blankName)\<lparr>error := Some (js ''Name is required'')\<rparr>\<rparr>)"
  by (simp add: blankName_def eval_simps)

lemma blank_blankName: "list_all isWhiteSpace (name (formData blankName))"
  by (simp add: blankName_def eval_simps)

lemma validateForm_emptyEmail:
  "validateForm emptyEmail =
     (False, emptyEmail\<lparr>formState := (formState emptyEmail)\<lparr>error := Some (js ''Email is required'')\<rparr>\<rparr>)"
  by (simp add: emptyEmail_def eval_simps)

lemma test_emptyEmail: "\<not> test emailPattern (email (formData emptyEmail))"
  by (simp add: emptyEmail_def eval_simps)

lemma test_badEmail: "\<not> test emailPattern (email (formData badEmail))"
  by (simp add: badEmail_def eval_simps)

lemma trimmed_badEmail:
  "truthy (trim (name (formData badEmail))) \<and> truthy (trim (email (formData badEmail))) \<and>
   truthy (trim (message (formData badEmail)))"
  by (simp add: badEmail_def eval_simps)

lemma trimmed_emptyEmail:
  "truthy (trim (name (formData emptyEmail))) \<and> truthy (trim (message (formData emptyEmail)))"
  by (simp add: emptyEmail_def eval_simps)

lemma ok_okResponse: "ok okResponse \<and> jsonParses okResponse"
  by (simp add: ok_def okResponse_def)

lemma ok_serverError: "\<not> ok serverError"
  by (simp add: ok_def serverError_def)

lemma ok_garbled: "ok garbled \<and> \<not> jsonParses garbled"
  by (simp add: ok_def garbled_def)

section \<open>Trimming and matching\<close>

text \<open>A string trims to the empty string exactly when it is empty or all white space.\<close>

lemma dropWhile_all: "(\<forall>x \<in> set (dropWhile P s). P x) \<longleftrightarrow> list_all P s"
proof (induction s)
  case Nil
  show ?case by simp
next
  case (Cons a s)
  then show ?case by auto
qed

lemma trim_empty_iff: "trim s = [] \<longleftrightarrow> list_all isWhiteSpace s"
  by (simp add: trim_def dropWhile_eq_Nil_conv dropWhile_all)

text \<open>
  The matcher by derivatives decides membership in the language of the pattern, and
  \<open>test\<close> finds a match exactly when some substring is in it. For the pattern of the form
  that is: a non-empty run without white space, then \<^verbatim>\<open>@\<close>, another such run, a dot,
  and a third run.
\<close>

lemma nullable_lang: "nullable r \<longleftrightarrow> [] \<in> lang r"
  by (induction r) (auto intro: star.star_empty)

lemma star_Cons:
  "x # s \<in> star A \<longleftrightarrow> (\<exists>u v. s = u @ v \<and> x # u \<in> A \<and> v \<in> star A)"
proof
  assume "x # s \<in> star A"
  then show "\<exists>u v. s = u @ v \<and> x # u \<in> A \<and> v \<in> star A"
  proof (induction "x # s" rule: star.induct)
    case (star_more u v)
    then show ?case
      by (cases u) auto
  qed
next
  assume "\<exists>u v. s = u @ v \<and> x # u \<in> A \<and> v \<in> star A"
  then obtain u v where "s = u @ v" and "x # u \<in> A" and "v \<in> star A"
    by blast
  then have "(x # u) @ v \<in> star A"
    by (intro star.star_more)
  with \<open>s = u @ v\<close> show "x # s \<in> star A"
    by simp
qed

lemma deriv_lang: "s \<in> lang (deriv x r) \<longleftrightarrow> x # s \<in> lang r"
proof (induction r arbitrary: s)
  case (Cat r1 r2)
  have "x # s \<in> lang (Cat r1 r2) \<longleftrightarrow>
      ([] \<in> lang r1 \<and> x # s \<in> lang r2) \<or>
      (\<exists>u v. s = u @ v \<and> x # u \<in> lang r1 \<and> v \<in> lang r2)"
    by (auto simp add: Cons_eq_append_conv)
  with Cat show ?case
    by (auto simp add: nullable_lang)
next
  case (Star r)
  then show ?case
    by (auto simp add: star_Cons)
qed auto

lemma matches_lang: "matches r s \<longleftrightarrow> s \<in> lang r"
  by (induction s arbitrary: r) (simp_all add: nullable_lang deriv_lang)

lemma matchesPrefix_lang: "matchesPrefix r s \<longleftrightarrow> (\<exists>p q. s = p @ q \<and> p \<in> lang r)"
proof (induction s arbitrary: r)
  case Nil
  then show ?case by (simp add: nullable_lang)
next
  case (Cons x s)
  have "(\<exists>p q. x # s = p @ q \<and> p \<in> lang r) \<longleftrightarrow>
      [] \<in> lang r \<or> (\<exists>p q. s = p @ q \<and> x # p \<in> lang r)"
    by (auto simp add: Cons_eq_append_conv)
  with Cons show ?case
    by (simp add: nullable_lang deriv_lang)
qed

lemma test_lang: "test r s \<longleftrightarrow> (\<exists>u p q. s = u @ p @ q \<and> p \<in> lang r)"
proof (induction s)
  case Nil
  then show ?case by (simp add: nullable_lang)
next
  case (Cons x s)
  have "(\<exists>u p q. x # s = u @ p @ q \<and> p \<in> lang r) \<longleftrightarrow>
      (\<exists>p q. x # s = p @ q \<and> p \<in> lang r) \<or> (\<exists>u p q. s = u @ p @ q \<and> p \<in> lang r)"
    (is "?L \<longleftrightarrow> ?A \<or> ?B")
  proof
    assume ?L
    then obtain u p q where *: "x # s = u @ p @ q" "p \<in> lang r" by blast
    show "?A \<or> ?B"
    proof (cases u)
      case Nil
      with * show ?thesis by auto
    next
      case (Cons y u')
      with * have "s = u' @ p @ q" by simp
      with * show ?thesis by blast
    qed
  next
    assume "?A \<or> ?B"
    then show ?L
    proof
      assume ?A
      then obtain p q where "x # s = [] @ p @ q" "p \<in> lang r" by auto
      then show ?L by blast
    next
      assume ?B
      then obtain u p q where "x # s = (x # u) @ p @ q" "p \<in> lang r" by auto
      then show ?L by blast
    qed
  qed
  with Cons show ?case
    by (simp only: test.simps matchesPrefix_lang)
qed

lemma star_NonSpace: "s \<in> star (lang NonSpace) \<longleftrightarrow> list_all (\<lambda>c. \<not> isWhiteSpace c) s"
proof
  assume "s \<in> star (lang NonSpace)"
  then show "list_all (\<lambda>c. \<not> isWhiteSpace c) s"
    by (induction rule: star.induct) auto
next
  assume "list_all (\<lambda>c. \<not> isWhiteSpace c) s"
  then show "s \<in> star (lang NonSpace)"
  proof (induction s)
    case Nil
    show ?case by (rule star.star_empty)
  next
    case (Cons c s)
    then have "[c] @ s \<in> star (lang NonSpace)"
      by (intro star.star_more) auto
    then show ?case by simp
  qed
qed

lemma lang_Plus_NonSpace:
  "s \<in> lang (Plus NonSpace) \<longleftrightarrow> s \<noteq> [] \<and> list_all (\<lambda>c. \<not> isWhiteSpace c) s"
proof
  assume "s \<in> lang (Plus NonSpace)"
  then obtain c v where "s = [c] @ v" and "\<not> isWhiteSpace c" and "v \<in> star (lang NonSpace)"
    by (auto simp add: Plus_def)
  then show "s \<noteq> [] \<and> list_all (\<lambda>c. \<not> isWhiteSpace c) s"
    by (simp add: star_NonSpace del: lang.simps)
next
  assume "s \<noteq> [] \<and> list_all (\<lambda>c. \<not> isWhiteSpace c) s"
  then obtain c v where s: "s = [c] @ v" and "\<not> isWhiteSpace c"
    and "list_all (\<lambda>c. \<not> isWhiteSpace c) v"
    by (cases s) auto
  then have "[c] \<in> lang NonSpace" and "v \<in> lang (Star NonSpace)"
    by (simp, simp add: star_NonSpace del: lang.simps(4))
  then have "[c] @ v \<in> lang (Cat NonSpace (Star NonSpace))"
    unfolding lang.simps(6) by blast
  with s show "s \<in> lang (Plus NonSpace)"
    by (simp only: Plus_def)
qed

lemma lang_Cat: "p \<in> lang (Cat r s) \<longleftrightarrow> (\<exists>u v. p = u @ v \<and> u \<in> lang r \<and> v \<in> lang s)"
  by auto

lemma lang_Lit: "p \<in> lang (Lit c) \<longleftrightarrow> p = [c]"
  by simp

lemma lang_emailPattern:
  "p \<in> lang emailPattern \<longleftrightarrow>
     (\<exists>x y z. p = x @ [0x40] @ y @ [0x2E] @ z \<and>
        (x \<noteq> [] \<and> list_all (\<lambda>c. \<not> isWhiteSpace c) x) \<and>
        (y \<noteq> [] \<and> list_all (\<lambda>c. \<not> isWhiteSpace c) y) \<and>
        (z \<noteq> [] \<and> list_all (\<lambda>c. \<not> isWhiteSpace c) z))"
  unfolding emailPattern_def lang_Cat lang_Lit lang_Plus_NonSpace
  by blast

lemma test_emailPattern:
  "test emailPattern s \<longleftrightarrow>
     (\<exists>u x y z v. s = u @ x @ [0x40] @ y @ [0x2E] @ z @ v \<and>
        (x \<noteq> [] \<and> list_all (\<lambda>c. \<not> isWhiteSpace c) x) \<and>
        (y \<noteq> [] \<and> list_all (\<lambda>c. \<not> isWhiteSpace c) y) \<and>
        (z \<noteq> [] \<and> list_all (\<lambda>c. \<not> isWhiteSpace c) z))"
proof
  assume "test emailPattern s"
  then obtain u p q where "s = u @ p @ q" and "p \<in> lang emailPattern"
    unfolding test_lang by blast
  then obtain x y z where "s = u @ (x @ [0x40] @ y @ [0x2E] @ z) @ q"
    and "x \<noteq> [] \<and> list_all (\<lambda>c. \<not> isWhiteSpace c) x"
    and "y \<noteq> [] \<and> list_all (\<lambda>c. \<not> isWhiteSpace c) y"
    and "z \<noteq> [] \<and> list_all (\<lambda>c. \<not> isWhiteSpace c) z"
    unfolding lang_emailPattern by blast
  then show "\<exists>u x y z v. s = u @ x @ [0x40] @ y @ [0x2E] @ z @ v \<and>
        (x \<noteq> [] \<and> list_all (\<lambda>c. \<not> isWhiteSpace c) x) \<and>
        (y \<noteq> [] \<and> list_all (\<lambda>c. \<not> isWhiteSpace c) y) \<and>
        (z \<noteq> [] \<and> list_all (\<lambda>c. \<not> isWhiteSpace c) z)"
    by (intro exI [of _ u] exI [of _ x] exI [of _ y] exI [of _ z] exI [of _ q]) simp
next
  assume "\<exists>u x y z v. s = u @ x @ [0x40] @ y @ [0x2E] @ z @ v \<and>
        (x \<noteq> [] \<and> list_all (\<lambda>c. \<not> isWhiteSpace c) x) \<and>
        (y \<noteq> [] \<and> list_all (\<lambda>c. \<not> isWhiteSpace c) y) \<and>
        (z \<noteq> [] \<and> list_all (\<lambda>c. \<not> isWhiteSpace c) z)"
  then obtain u x y z v where s: "s = u @ x @ [0x40] @ y @ [0x2E] @ z @ v"
    and "x \<noteq> [] \<and> list_all (\<lambda>c. \<not> isWhiteSpace c) x"
    and "y \<noteq> [] \<and> list_all (\<lambda>c. \<not> isWhiteSpace c) y"
    and "z \<noteq> [] \<and> list_all (\<lambda>c. \<not> isWhiteSpace c) z"
    by blast
  then have "x @ [0x40] @ y @ [0x2E] @ z \<in> lang emailPattern"
    unfolding lang_emailPattern by blast
  moreover from s have "s = u @ (x @ [0x40] @ y @ [0x2E] @ z) @ v"
    by simp
  ultimately show "test emailPattern s"
    unfolding test_lang by blast
qed

section \<open>Validation\<close>

lemma validateForm_cases:
  "validateForm c = (True, c) \<or>
   (\<exists>msg \<in> set validationMessages.
      validateForm c = (False, c\<lparr>formState := (formState c)\<lparr>error := Some msg\<rparr>\<rparr>))"
  by (simp add: validateForm_def validationMessages_def setFormState_def)

text \<open>
  C1. For every form content, \<open>validateForm\<close> tries the checks in the order name
  present, email present, email well-formed, message present, stops at the first one
  that fails and stores exactly the message of that check in \<open>error\<close>, touching nothing
  else; when all four pass it returns true and leaves the state as it was.
\<close>

theorem validateForm_first_failure:
  "validateForm c =
     (case firstFailure (formData c) of
        None \<Rightarrow> (True, c)
      | Some msg \<Rightarrow> (False, c\<lparr>formState := (formState c)\<lparr>error := Some msg\<rparr>\<rparr>))"
  by (simp add: validateForm_def firstFailure_def checks_def truthy_def setFormState_def)

theorem validateForm_first_failure_witness:
  "(case firstFailure (formData allWrong) of
      None \<Rightarrow> (True, allWrong)
    | Some msg \<Rightarrow> (False, allWrong\<lparr>formState := (formState allWrong)\<lparr>error := Some msg\<rparr>\<rparr>)) =
   (False, allWrong\<lparr>formState := (formState allWrong)\<lparr>error := Some (js ''Name is required'')\<rparr>\<rparr>)"
  using validateForm_first_failure [of allWrong] validateForm_allWrong
  by simp

text \<open>
  C5, as amended. When name, email and message are all non-empty after trimming and the
  pattern \<^verbatim>\<open>\S+@\S+\.\S+\<close> finds no match in the email, validation fails with
  "Please enter a valid email address".
\<close>

theorem validateForm_email_format:
  assumes "truthy (trim (name (formData c)))"
    and "truthy (trim (email (formData c)))"
    and "truthy (trim (message (formData c)))"
    and "\<not> test emailPattern (email (formData c))"
  shows "validateForm c =
     (False,
      c\<lparr>formState := (formState c)\<lparr>error := Some (js ''Please enter a valid email address'')\<rparr>\<rparr>)"
  using assms by (simp add: validateForm_def setFormState_def)

theorem validateForm_email_format_witness:
  "truthy (trim (name (formData badEmail))) \<and> truthy (trim (email (formData badEmail))) \<and>
   truthy (trim (message (formData badEmail))) \<and> \<not> test emailPattern (email (formData badEmail)) \<and>
   error (formState (snd (validateForm badEmail))) = Some (js ''Please enter a valid email address'')"
  using validateForm_email_format [of badEmail] trimmed_badEmail test_badEmail
  by simp

text \<open>
  C5, as stated, fails: the empty email has no match for the pattern, name and message
  are present, and yet the message stored is "Email is required".
\<close>

theorem validateForm_email_format_counterexample:
  "truthy (trim (name (formData emptyEmail))) \<and> truthy (trim (message (formData emptyEmail))) \<and>
   \<not> test emailPattern (email (formData emptyEmail)) \<and>
   error (formState (snd (validateForm emptyEmail))) = Some (js ''Email is required'') \<and>
   error (formState (snd (validateForm emptyEmail))) \<noteq> Some (js ''Please enter a valid email address'')"
  using trimmed_emptyEmail test_emptyEmail
  by (simp add: validateForm_emptyEmail) (simp add: js_def)

section \<open>Submission\<close>

lemma handleSubmit_valid:
  assumes "fst (validateForm c)"
  shows "handleSubmit c =
     Awaiting (c\<lparr>formState := \<lparr>isSubmitting = True, isSuccess = False, error = None\<rparr>,
                 requests := requests c @ [submitRequest (formData c)],
                 inFlight := Suc (inFlight c)\<rparr>)"
  using assms
  by (auto simp add: validateForm_def handleSubmit_def setFormState_def fetch_def split: if_splits)

lemma resume_success:
  assumes "ok r" and "jsonParses r"
  shows "handleSubmit_resume (Resolves r) c =
     c\<lparr>inFlight := inFlight c - 1,
       formState := \<lparr>isSubmitting = False, isSuccess = True, error = None\<rparr>,
       toasts := toasts c @ [successToast],
       formData := \<lparr>name = [], email = [], message = []\<rparr>\<rparr>"
  using assms
  by (simp add: handleSubmit_resume_def setFormState_def setFormData_def toast_def)

lemma resume_failure:
  assumes "awaited out = Inl err"
  shows "handleSubmit_resume out c =
     c\<lparr>inFlight := inFlight c - 1,
       console := console c @ [err],
       formState := \<lparr>isSubmitting = False, isSuccess = False, error = Some failureMessage\<rparr>,
       toasts := toasts c @ [errorToast]\<rparr>"
  using assms
  by (simp add: handleSubmit_resume_def setFormState_def console_error_def toast_def
      failureMessage_def)

lemma awaited_cases:
  "(\<exists>r. out = Resolves r \<and> ok r \<and> jsonParses r \<and> awaited out = Inr ()) \<or>
   (\<exists>err. awaited out = Inl err)"
  by (cases out) auto

text \<open>
  C2. When the form passes validation and the response has an ok status and a body
  that parses, the handler is suspended in the submitting state and the submission ends
  in the success state, with the three fields empty again and exactly one more toast,
  the success one.
\<close>

theorem submit_success:
  assumes "fst (validateForm c)" and "ok r" and "jsonParses r"
  shows "(\<exists>c1. handleSubmit c = Awaiting c1 \<and>
            formState c1 = \<lparr>isSubmitting = True, isSuccess = False, error = None\<rparr>) \<and>
     formState (submit (Resolves r) c) = \<lparr>isSubmitting = False, isSuccess = True, error = None\<rparr> \<and>
     formData (submit (Resolves r) c) = \<lparr>name = [], email = [], message = []\<rparr> \<and>
     toasts (submit (Resolves r) c) = toasts c @ [successToast]"
  using assms
  by (simp add: submit_def handleSubmit_valid resume_success)

theorem submit_success_witness:
  "fst (validateForm validForm) \<and> ok okResponse \<and> jsonParses okResponse \<and>
   formState (submit (Resolves okResponse) validForm) =
     \<lparr>isSubmitting = False, isSuccess = True, error = None\<rparr> \<and>
   formData (submit (Resolves okResponse) validForm) = \<lparr>name = [], email = [], message = []\<rparr> \<and>
   toasts (submit (Resolves okResponse) validForm) = [successToast]"
  using submit_success [of validForm okResponse] ok_okResponse
  by (simp add: validateForm_validForm) (simp add: validForm_def filled_def initial_def)

text \<open>
  C3. When the form passes validation and the request is rejected, or answered with a
  status that is not ok, or with a body that does not parse, the submission ends with
  the error "Failed to send message. Please try again later.", neither submitting nor
  successful, whichever of the three happened, and the fields keep what was entered.
\<close>

theorem submit_failure:
  assumes "fst (validateForm c)"
    and "out = Rejects \<or> (\<exists>r. out = Resolves r \<and> (\<not> ok r \<or> \<not> jsonParses r))"
  shows "formState (submit out c) =
       \<lparr>isSubmitting = False, isSuccess = False,
        error = Some (js ''Failed to send message. Please try again later.'')\<rparr> \<and>
     formData (submit out c) = formData c \<and>
     toasts (submit out c) = toasts c @ [errorToast]"
proof -
  from assms(2) have "\<exists>err. awaited out = Inl err"
    by (cases out) auto
  then obtain err where "awaited out = Inl err" ..
  then show ?thesis
    using assms(1)
    by (simp add: submit_def handleSubmit_valid resume_failure failureMessage_def)
qed

theorem submit_failure_witness:
  "fst (validateForm validForm) \<and> \<not> ok serverError \<and> \<not> jsonParses garbled \<and>
   formState (submit (Resolves serverError) validForm) =
     \<lparr>isSubmitting = False, isSuccess = False,
      error = Some (js ''Failed to send message. Please try again later.'')\<rparr> \<and>
   formState (submit Rejects validForm) = formState (submit (Resolves serverError) validForm) \<and>
   formState (submit (Resolves garbled) validForm) =
     formState (submit (Resolves serverError) validForm) \<and>
   formData (submit (Resolves serverError) validForm) = formData validForm \<and>
   formData (submit Rejects validForm) = formData validForm \<and>
   formData (submit (Resolves garbled) validForm) = formData validForm"
  using submit_failure [of validForm "Resolves serverError"] submit_failure [of validForm Rejects]
    submit_failure [of validForm "Resolves garbled"] ok_serverError ok_garbled
  by (simp add: validateForm_validForm)

text \<open>
  C4. When the name is empty or only white space, \<open>handleSubmit\<close> returns with the
  error "Name is required" and nothing else changed. Whenever validation fails, it
  returns before the request: no request is issued or in flight, \<open>isSubmitting\<close> and
  \<open>isSuccess\<close> are as before, and no network outcome plays a part.
\<close>

theorem handleSubmit_rejected:
  "(list_all isWhiteSpace (name (formData c)) \<longrightarrow>
      handleSubmit c = Done (c\<lparr>formState := (formState c)\<lparr>error := Some (js ''Name is required'')\<rparr>\<rparr>)) \<and>
   (\<not> fst (validateForm c) \<longrightarrow>
      (\<exists>c1. handleSubmit c = Done c1 \<and> (\<forall>out. submit out c = c1) \<and>
         requests c1 = requests c \<and> inFlight c1 = inFlight c \<and>
         isSubmitting (formState c1) = isSubmitting (formState c) \<and>
         isSuccess (formState c1) = isSuccess (formState c) \<and>
         formData c1 = formData c \<and> toasts c1 = toasts c))"
proof (intro conjI impI)
  assume "list_all isWhiteSpace (name (formData c))"
  then have "\<not> truthy (trim (name (formData c)))"
    by (simp add: truthy_def trim_empty_iff)
  then show "handleSubmit c =
      Done (c\<lparr>formState := (formState c)\<lparr>error := Some (js ''Name is required'')\<rparr>\<rparr>)"
    by (simp add: handleSubmit_def validateForm_def setFormState_def)
next
  assume "\<not> fst (validateForm c)"
  then obtain msg where
    "validateForm c = (False, c\<lparr>formState := (formState c)\<lparr>error := Some msg\<rparr>\<rparr>)"
    using validateForm_cases [of c] by auto
  then show "\<exists>c1. handleSubmit c = Done c1 \<and> (\<forall>out. submit out c = c1) \<and>
         requests c1 = requests c \<and> inFlight c1 = inFlight c \<and>
         isSubmitting (formState c1) = isSubmitting (formState c) \<and>
         isSuccess (formState c1) = isSuccess (formState c) \<and>
         formData c1 = formData c \<and> toasts c1 = toasts c"
    by (simp add: submit_def handleSubmit_def)
qed

theorem handleSubmit_rejected_witness:
  "list_all isWhiteSpace (name (formData blankName)) \<and> \<not> fst (validateForm blankName) \<and>
   handleSubmit blankName =
     Done (blankName\<lparr>formState := (formState blankName)\<lparr>error := Some (js ''Name is required'')\<rparr>\<rparr>) \<and>
   requests (submit Rejects blankName) = [] \<and>
   \<not> isSubmitting (formState (submit Rejects blankName))"
proof -
  note claim = handleSubmit_rejected [of blankName]
  have blank: "list_all isWhiteSpace (name (formData blankName))"
    by (rule blank_blankName)
  have fails: "\<not> fst (validateForm blankName)"
    by (simp add: validateForm_blankName)
  from claim blank have early: "handleSubmit blankName =
     Done (blankName\<lparr>formState := (formState blankName)\<lparr>error := Some (js ''Name is required'')\<rparr>\<rparr>)"
    by blast
  from claim fails obtain c1 where "\<forall>out. submit out blankName = c1"
    and "requests c1 = requests blankName"
    and "isSubmitting (formState c1) = isSubmitting (formState blankName)"
    by blast
  then have "requests (submit Rejects blankName) = requests blankName"
    and "isSubmitting (formState (submit Rejects blankName)) = isSubmitting (formState blankName)"
    by simp_all
  then have "requests (submit Rejects blankName) = []"
    and "\<not> isSubmitting (formState (submit Rejects blankName))"
    by (simp_all add: blankName_def filled_def initial_def)
  with blank fails early show ?thesis
    by blast
qed

text \<open>
  C9. When the form passes validation, \<open>handleSubmit\<close> issues one request, and the
  whole submission issues no other: method POST, path \<^verbatim>\<open>/.netlify/functions/submit\<close>,
  the single header Content-Type: application/json, and as body the JSON text of the
  form content as it stands, untrimmed.
\<close>

theorem handleSubmit_request:
  assumes "fst (validateForm c)"
  shows "(\<exists>c1. handleSubmit c = Awaiting c1 \<and> inFlight c1 = Suc (inFlight c) \<and>
            requests c1 = requests c @
              [\<lparr>url = js ''/.netlify/functions/submit'', httpMethod = js ''POST'',
                headers = [(js ''Content-Type'', js ''application/json'')],
                body = JSON_stringify (formData c)\<rparr>]) \<and>
         (\<forall>out. requests (submit out c) = requests c @
              [\<lparr>url = js ''/.netlify/functions/submit'', httpMethod = js ''POST'',
                headers = [(js ''Content-Type'', js ''application/json'')],
                body = JSON_stringify (formData c)\<rparr>])"
proof -
  have "requests (handleSubmit_resume out c1) = requests c1" for out c1
    using awaited_cases [of out]
    by (auto simp add: resume_success resume_failure)
  then show ?thesis
    using assms by (simp add: submit_def handleSubmit_valid submitRequest_def)
qed

lemma JSON_stringify_validForm:
  "JSON_stringify (formData validForm) =
     js ''{\"name\":\" Ann \",\"email\":\"a@b.io\",\"message\":\"Hello\"}''"
  by (simp add: validForm_def filled_def initial_def JSON_stringify_def QuoteJSONString_def
      quoteUnit_def js_def isLeadingSurrogate_def isTrailingSurrogate_def)

theorem handleSubmit_request_witness:
  "fst (validateForm validForm) \<and>
   requests (submit (Resolves okResponse) validForm) =
     [\<lparr>url = js ''/.netlify/functions/submit'', httpMethod = js ''POST'',
       headers = [(js ''Content-Type'', js ''application/json'')],
       body = js ''{\"name\":\" Ann \",\"email\":\"a@b.io\",\"message\":\"Hello\"}''\<rparr>]"
proof -
  have valid: "fst (validateForm validForm)"
    by (simp add: validateForm_validForm)
  have "requests validForm = []"
    by (simp add: validForm_def filled_def initial_def)
  with handleSubmit_request [OF valid] valid show ?thesis
    by (simp add: JSON_stringify_validForm)
qed

section \<open>Reachable states\<close>

lemma enabled_Submit_iff:
  "enabled Submit c \<longleftrightarrow> \<not> isSuccess (formState c) \<and> \<not> isSubmitting (formState c)"
  by (simp add: render_def)

lemma enabled_Change_iff:
  "enabled (Change f v) c \<longleftrightarrow> \<not> isSuccess (formState c) \<and> \<not> isSubmitting (formState c)"
  by (cases f) (auto simp add: render_def)

lemma enabled_SendAnother_iff: "enabled SendAnother c \<longleftrightarrow> isSuccess (formState c)"
  by (simp add: render_def)

lemma invariant_initial: "invariant initial"
  by (simp add: invariant_def initial_def)

lemma invariant_Change:
  assumes "invariant c" and "enabled (Change f v) c"
  shows "invariant (fire (Change f v) c)"
  using assms
  by (auto simp add: invariant_def enabled_Change_iff handleInputChange_def setFormData_def
      setFormState_def Let_def simp del: enabled.simps)

lemma invariant_Submit:
  assumes "invariant c" and "enabled Submit c"
  shows "invariant (fire Submit c)"
proof (cases "fst (validateForm c)")
  case True
  then show ?thesis
    using assms
    by (simp add: handleSubmit_valid invariant_def enabled_Submit_iff del: enabled.simps)
next
  case False
  then obtain msg where "msg \<in> set validationMessages"
    and "validateForm c = (False, c\<lparr>formState := (formState c)\<lparr>error := Some msg\<rparr>\<rparr>)"
    using validateForm_cases [of c] by auto
  then show ?thesis
    using assms
    by (simp add: handleSubmit_def invariant_def enabled_Submit_iff del: enabled.simps)
qed

lemma invariant_SendAnother:
  assumes "invariant c" and "enabled SendAnother c"
  shows "invariant (fire SendAnother c)"
  using assms
  by (auto simp add: invariant_def enabled_SendAnother_iff setFormState_def
      simp del: enabled.simps)

lemma invariant_Settled:
  assumes "invariant c" and "enabled (Settled out) c"
  shows "invariant (fire (Settled out) c)"
  using assms awaited_cases [of out]
  by (auto simp add: invariant_def resume_success resume_failure split: if_splits)

lemma reachable_invariant: "reachable c \<Longrightarrow> invariant c"
proof (induction rule: reachable.induct)
  case mounted
  show ?case by (rule invariant_initial)
next
  case (dispatched c e)
  then show ?case
    by (cases e)
      (simp_all only: invariant_Change invariant_Submit invariant_SendAnother invariant_Settled)
qed

text \<open>
  A submission run to its end is the event \<open>Submit\<close> followed, when validation passed,
  by the settling of its request.
\<close>

lemma submit_as_events:
  "submit out c =
     (if fst (validateForm c) then fire (Settled out) (fire Submit c) else fire Submit c)"
  by (cases "validateForm c") (auto simp add: submit_def handleSubmit_def)

lemma run_reachable: "reachable c \<Longrightarrow> run es c = Some c' \<Longrightarrow> reachable c'"
  by (induction es arbitrary: c) (auto split: if_splits intro: reachable.dispatched)

lemma typed_eq: "typed = validForm"
  by (simp add: typed_def validForm_def filled_def initial_def handleInputChange_def
      setFormData_def truthy_def)

lemma sending_eq:
  "sending =
     validForm\<lparr>formState := \<lparr>isSubmitting = True, isSuccess = False, error = None\<rparr>,
                requests := [submitRequest (formData validForm)],
                inFlight := 1\<rparr>"
  by (simp add: sending_def typed_eq handleSubmit_valid validateForm_validForm)
    (simp add: validForm_def filled_def initial_def)

lemma rejected_eq:
  "rejected =
     initial\<lparr>formState :=
       \<lparr>isSubmitting = False, isSuccess = False, error = Some (js ''Name is required'')\<rparr>\<rparr>"
  by (simp add: rejected_def handleSubmit_def validateForm_def initial_def truthy_def trim_def
      setFormState_def)

lemma reachable_typed: "reachable typed"
  unfolding typed_def
  by (intro reachable.dispatched reachable.mounted)
    (simp_all add: enabled_Change_iff initial_def handleInputChange_def setFormData_def
      del: enabled.simps)

lemma reachable_sending: "reachable sending"
  unfolding sending_def
  by (rule reachable.dispatched [OF reachable_typed])
    (simp add: enabled_Submit_iff typed_eq validForm_def filled_def initial_def
      del: enabled.simps)

lemma reachable_rejected: "reachable rejected"
  unfolding rejected_def
  by (rule reachable.dispatched [OF reachable.mounted])
    (simp add: enabled_Submit_iff initial_def del: enabled.simps)

lemma messages_truthy: "m \<in> set (failureMessage # validationMessages) \<Longrightarrow> truthy m"
  by (auto simp add: failureMessage_def validationMessages_def truthy_def js_def)

lemma reachable_error_truthy:
  assumes "reachable c"
  shows "truthyOrNull (error (formState c)) \<longleftrightarrow> error (formState c) \<noteq> None"
proof (cases "error (formState c)")
  case None
  then show ?thesis by simp
next
  case (Some m)
  with reachable_invariant [OF assms] have "m \<in> set (failureMessage # validationMessages)"
    by (auto simp add: invariant_def)
  with Some show ?thesis
    by (simp add: messages_truthy)
qed

text \<open>
  C6. In every state reachable from the initial one by field changes, submissions
  (validation included), settlements of the request with any outcome and resets,
  \<open>isSubmitting\<close> and \<open>isSuccess\<close> are not both true, and \<open>error\<close> is null while
  \<open>isSubmitting\<close> is true.
\<close>

theorem flags_exclusive:
  assumes "reachable c"
  shows "\<not> (isSubmitting (formState c) \<and> isSuccess (formState c)) \<and>
         (isSubmitting (formState c) \<longrightarrow> error (formState c) = None)"
  using reachable_invariant [OF assms] by (simp add: invariant_def)

theorem flags_exclusive_witness:
  "reachable sending \<and> isSubmitting (formState sending) \<and> \<not> isSuccess (formState sending) \<and>
   error (formState sending) = None"
  using flags_exclusive [OF reachable_sending] reachable_sending
  by (simp add: sending_eq)

text \<open>
  C7. In a reachable state, a change of field \<open>f\<close> to the value \<open>v\<close> stores \<open>v\<close> in that
  field and keeps the other two; it sets \<open>error\<close> to null when it was not, keeping
  \<open>isSubmitting\<close> and \<open>isSuccess\<close>, and leaves the form state alone when \<open>error\<close> was null
  already. Nothing else changes. (The handler tests \<open>error\<close> for truthiness; the
  empty string, which it would not clear, is never stored.)
\<close>

theorem handleInputChange_frame:
  assumes "reachable c"
  shows "formData (handleInputChange f v c) =
           \<lparr>name = (if f = Name then v else name (formData c)),
            email = (if f = Email then v else email (formData c)),
            message = (if f = Message then v else message (formData c))\<rparr> \<and>
         formState (handleInputChange f v c) =
           (if error (formState c) \<noteq> None
            then \<lparr>isSubmitting = isSubmitting (formState c), isSuccess = isSuccess (formState c),
                  error = None\<rparr>
            else formState c) \<and>
         toasts (handleInputChange f v c) = toasts c \<and>
         console (handleInputChange f v c) = console c \<and>
         requests (handleInputChange f v c) = requests c \<and>
         inFlight (handleInputChange f v c) = inFlight c"
  using reachable_error_truthy [OF assms]
  by (cases f) (auto simp add: handleInputChange_def setFormData_def setFormState_def Let_def)

theorem handleInputChange_frame_witness:
  "reachable rejected \<and> error (formState rejected) = Some (js ''Name is required'') \<and>
   formData (handleInputChange Email (js ''a@b.io'') rejected) =
     \<lparr>name = [], email = js ''a@b.io'', message = []\<rparr> \<and>
   formState (handleInputChange Email (js ''a@b.io'') rejected) =
     \<lparr>isSubmitting = False, isSuccess = False, error = None\<rparr>"
  using handleInputChange_frame [OF reachable_rejected, of Email "js ''a@b.io''"]
    reachable_rejected
  by (simp add: rejected_eq initial_def)

text \<open>
  C8. In every reachable state where \<open>isSubmitting\<close> is true, the form is rendered
  with its submit button and its three inputs disabled, so that neither a submission nor
  a change nor a reset can occur; a request is in flight only while \<open>isSubmitting\<close> is
  true, and at most one request is in flight at any time.
\<close>

theorem single_flight:
  assumes "reachable c"
  shows "inFlight c \<le> 1 \<and>
         (0 < inFlight c \<longrightarrow> isSubmitting (formState c)) \<and>
         (isSubmitting (formState c) \<longrightarrow>
            (\<exists>a ins b. render c = FormView a ins b \<and> buttonDisabled b \<and>
               map nameAttr ins = [Name, Email, Message] \<and> list_all disabled ins) \<and>
            \<not> enabled Submit c \<and> (\<forall>f v. \<not> enabled (Change f v) c) \<and>
            \<not> enabled SendAnother c)"
  using reachable_invariant [OF assms]
  by (simp add: invariant_def enabled_Submit_iff enabled_Change_iff enabled_SendAnother_iff
      render_def del: enabled.simps)

theorem single_flight_witness:
  "reachable sending \<and> isSubmitting (formState sending) \<and> inFlight sending = 1 \<and>
   \<not> enabled Submit sending"
  using single_flight [OF reachable_sending] reachable_sending
  by (simp add: sending_eq del: enabled.simps)

text \<open>
  C10. In every reachable state \<open>error\<close> is null or one of the four validation
  messages or the failure message. In particular, when a response with a status that is
  not ok arrives, the error thrown with the status goes to the console, and \<open>error\<close>
  holds the failure message.
\<close>

theorem error_messages_closed:
  assumes "reachable c"
  shows "error (formState c) \<in>
           {None, Some (js ''Name is required''), Some (js ''Email is required''),
            Some (js ''Please enter a valid email address''), Some (js ''Message is required''),
            Some (js ''Failed to send message. Please try again later.'')} \<and>
         (\<forall>r. \<not> ok r \<longrightarrow>
            console (fire (Settled (Resolves r)) c) = console c @ [HttpError (status r)] \<and>
            error (formState (fire (Settled (Resolves r)) c)) =
              Some (js ''Failed to send message. Please try again later.''))"
proof -
  have "awaited (Resolves r) = Inl (HttpError (status r))" if "\<not> ok r" for r
    using that by simp
  then show ?thesis
    using reachable_invariant [OF assms]
    by (auto simp add: invariant_def validationMessages_def failureMessage_def resume_failure)
qed

theorem error_messages_closed_witness:
  "reachable sending \<and> \<not> ok serverError \<and>
   console (fire (Settled (Resolves serverError)) sending) = [HttpError 500] \<and>
   error (formState (fire (Settled (Resolves serverError)) sending)) =
     Some (js ''Failed to send message. Please try again later.'')"
  using error_messages_closed [OF reachable_sending] reachable_sending ok_serverError
  by (simp add: sending_eq validForm_def filled_def initial_def serverError_def)

end
